theory Spec2Isabelle
  imports Main
begin

section \<open>JavaScript values\<close>

text \<open>
  TypeScript types are erased at run time, so what \<^verbatim>\<open>response.json()\<close> returns and what
  \<^verbatim>\<open>location.state\<close> holds are plain JavaScript values. Numbers are carried as integers:
  the pages only produce lengths and only test a number for being zero.
  An object is the list of its members in the order of the JSON text; a later member
  with the same key replaces an earlier one, as \<^verbatim>\<open>JSON.parse\<close> does.
\<close>

datatype jsval =
    JUndefined
  | JNull
  | JBool bool
  | JNum int
  | JStr string
  | JArr "jsval list"
  | JObj "(string \<times> jsval) list"

datatype js_error = TypeError | SyntaxError | FetchRejected | Error string

text \<open>ToBoolean, the test behind \<^verbatim>\<open>!x\<close>, \<^verbatim>\<open>x || y\<close> and \<^verbatim>\<open>x && y\<close>.\<close>

fun truthy :: "jsval \<Rightarrow> bool" where
  "truthy JUndefined = False"
| "truthy JNull = False"
| "truthy (JBool b) = b"
| "truthy (JNum n) = (n \<noteq> 0)"
| "truthy (JStr s) = (s \<noteq> [])"
| "truthy (JArr xs) = True"
| "truthy (JObj kvs) = True"

definition js_or :: "jsval \<Rightarrow> jsval \<Rightarrow> jsval" where
  "js_or a b = (if truthy a then a else b)"

definition js_and :: "jsval \<Rightarrow> jsval \<Rightarrow> jsval" where
  "js_and a b = (if truthy a then b else a)"

text \<open>
  Reading a data property, \<^verbatim>\<open>v.k\<close>: a TypeError on \<^verbatim>\<open>undefined\<close> and \<^verbatim>\<open>null\<close>,
  \<^verbatim>\<open>undefined\<close> for a key that is not there. Arrays and strings have their
  \<^verbatim>\<open>length\<close>; the pages read no other built-in data property.
\<close>

fun get_prop :: "jsval \<Rightarrow> string \<Rightarrow> js_error + jsval" where
  "get_prop JUndefined k = Inl TypeError"
| "get_prop JNull k = Inl TypeError"
| "get_prop (JObj kvs) k = Inr (case map_of (rev kvs) k of None \<Rightarrow> JUndefined | Some v \<Rightarrow> v)"
| "get_prop (JArr xs) k = Inr (if k = ''length'' then JNum (int (length xs)) else JUndefined)"
| "get_prop (JStr s) k = Inr (if k = ''length'' then JNum (int (length s)) else JUndefined)"
| "get_prop (JBool b) k = Inr JUndefined"
| "get_prop (JNum n) k = Inr JUndefined"

section \<open>The Results view (pages/Results.tsx)\<close>

text \<open>
  What the component function returns: \<^verbatim>\<open>null\<close>, the element tree (the values it puts
  into the status badge, the count, the source URL and the list of rows), or an exception
  thrown while the tree is built. \<^verbatim>\<open>navigates\<close> is the path handed to
  \<^verbatim>\<open>navigate\<close> during the render, if any.
\<close>

datatype listing = NoEmailsFound | Rows "jsval list"

record Results_view =
  badge_variant :: string
  badge_label :: string
  found :: jsval
  source_url :: jsval
  extracted :: jsval
  listing :: listing

datatype rendered = ReturnsNull | Returns Results_view | Throws js_error

record Results_result =
  navigates :: "string option"
  returned :: rendered

definition Results_tree :: "jsval \<Rightarrow> jsval \<Rightarrow> jsval \<Rightarrow> rendered" where
  "Results_tree emails postUrl status =
     (case get_prop emails ''length'' of
        Inl e \<Rightarrow> Throws e
      | Inr n \<Rightarrow>
          (let v = \<lparr>badge_variant = (if status = JStr ''success'' then ''default'' else ''destructive''),
                    badge_label = (if status = JStr ''success'' then ''SUCCESS'' else ''FAILED''),
                    found = n, source_url = postUrl, extracted = n,
                    listing = NoEmailsFound\<rparr>
           in if n = JNum 0 then Returns v
              else (case emails of
                      JArr xs \<Rightarrow> Returns (v\<lparr>listing := Rows xs\<rparr>)
                    | _ \<Rightarrow> Throws TypeError)))"

definition Results :: "jsval \<Rightarrow> Results_result" where
  "Results state =
     (if \<not> truthy state then \<lparr>navigates = Some ''/extract'', returned = ReturnsNull\<rparr>
      else \<lparr>navigates = None,
            returned = (case (get_prop state ''emails'', get_prop state ''postUrl'',
                            get_prop state ''status'') of
                        (Inr emails, Inr postUrl, Inr status) \<Rightarrow> Results_tree emails postUrl status
                      | _ \<Rightarrow> Throws TypeError)\<rparr>)"

section \<open>The Extract view: form state\<close>

record ExtractFormData =
  email :: string
  password :: string
  postUrl :: string

datatype field = Email | Password | PostUrl

record Extract_state =
  formData :: ExtractFormData
  isLoading :: bool
  emails :: jsval

definition initial_state :: Extract_state where
  "initial_state = \<lparr>formData = \<lparr>email = [], password = [], postUrl = []\<rparr>,
                     isLoading = False, emails = JArr []\<rparr>"

fun handleInputChange :: "field \<Rightarrow> string \<Rightarrow> ExtractFormData \<Rightarrow> ExtractFormData" where
  "handleInputChange Email v prev = prev\<lparr>email := v\<rparr>"
| "handleInputChange Password v prev = prev\<lparr>password := v\<rparr>"
| "handleInputChange PostUrl v prev = prev\<lparr>postUrl := v\<rparr>"

definition isFormValid :: "ExtractFormData \<Rightarrow> jsval" where
  "isFormValid f = js_and (js_and (JStr (email f)) (JStr (password f))) (JStr (postUrl f))"

definition input_disabled :: "Extract_state \<Rightarrow> bool" where
  "input_disabled s = isLoading s"

definition submit_disabled :: "Extract_state \<Rightarrow> bool" where
  "submit_disabled s = (\<not> truthy (isFormValid (formData s)) \<or> isLoading s)"

section \<open>The world outside the component functions\<close>

text \<open>
  An HTTP call issued through \<^verbatim>\<open>fetch\<close>. The body of the extraction request is the
  object handed to \<^verbatim>\<open>JSON.stringify\<close>.
\<close>

record request =
  http_method :: string
  url :: string
  headers :: "(string \<times> string) list"
  body :: "jsval option"

text \<open>
  How a call settles: \<^verbatim>\<open>fetch\<close> rejects, or a response arrives with its HTTP status
  and what reading its body gives (\<^verbatim>\<open>response.json()\<close> or \<^verbatim>\<open>response.blob()\<close>;
  \<open>None\<close> when that promise rejects, as \<^verbatim>\<open>json()\<close> does on a body that is not JSON).
\<close>

datatype 'b fetched = Rejected | Responded nat "'b option"

definition ok :: "nat \<Rightarrow> bool" where
  "ok st = (200 \<le> st \<and> st \<le> 299)"

record toast =
  title :: string
  description :: string
  variant :: string

type_synonym blob = string

datatype DownloadFormat = Csv | Txt

record node =
  node_id :: nat
  tag :: string
  href :: "nat option"
  download :: "string option"

text \<open>
  A call of \<^verbatim>\<open>handleSubmit\<close> suspended at \<^verbatim>\<open>await fetch\<close>: the component instance whose
  state setters it holds, and the \<^verbatim>\<open>formData\<close> of the render it closes over.
\<close>

record pending =
  owner :: nat
  captured :: ExtractFormData

text \<open>
  The state of the running application. Each mount of the Extract view creates a new
  instance with its own \<^verbatim>\<open>useState\<close> cells; \<open>mounted\<close> is the instance on screen, if
  the current route shows Extract. The cells of an instance that was unmounted are kept,
  so that a state setter called late has a place to write; no view reads them.
  Object URLs are handles into \<open>object_urls\<close>, newest first.
\<close>

record world =
  pathname :: string
  loc_state :: jsval
  nav_log :: "(string \<times> jsval) list"
  instances :: "Extract_state list"
  mounted :: "nat option"
  in_flight :: "pending list"
  dl_in_flight :: "DownloadFormat list"
  fetches :: "request list"
  toasts :: "toast list"
  console :: "string list"
  dom_body :: "node list"
  next_node :: nat
  object_urls :: "(nat \<times> blob) list"
  next_url :: nat
  saves :: "(string \<times> blob) list"

datatype view = LandingView | ExtractView | ResultsView | StatusView | NoView

text \<open>
  Modelled from the spec: the route table lives in the application's router set-up, which
  is not among the sources. The pages navigate to these four paths, and the spec names
  the views behind them (Landing, the Extract route, the Results route, Status).
\<close>

definition route :: "string \<Rightarrow> view" where
  "route p = (if p = ''/'' then LandingView
              else if p = ''/extract'' then ExtractView
              else if p = ''/results'' then ResultsView
              else if p = ''/status'' then StatusView
              else NoView)"

text \<open>
  \<^verbatim>\<open>navigate(path, {state})\<close>: the location changes; a view other than the one on screen
  is mounted afresh and the old one is unmounted.
\<close>

definition navigate :: "string \<Rightarrow> jsval \<Rightarrow> world \<Rightarrow> world" where
  "navigate p st w =
     (let w1 = w\<lparr>pathname := p, loc_state := st, nav_log := nav_log w @ [(p, st)]\<rparr>
      in if route p = ExtractView
         then (if route (pathname w) = ExtractView then w1
               else w1\<lparr>instances := instances w @ [initial_state],
                       mounted := Some (length (instances w))\<rparr>)
         else w1\<lparr>mounted := None\<rparr>)"

definition show_toast :: "toast \<Rightarrow> world \<Rightarrow> world" where
  "show_toast t w = w\<lparr>toasts := toasts w @ [t]\<rparr>"

definition console_error :: "string \<Rightarrow> world \<Rightarrow> world" where
  "console_error l w = w\<lparr>console := console w @ [l]\<rparr>"

definition fetch :: "request \<Rightarrow> world \<Rightarrow> world" where
  "fetch r w = w\<lparr>fetches := fetches w @ [r]\<rparr>"

definition setFormData :: "nat \<Rightarrow> (ExtractFormData \<Rightarrow> ExtractFormData) \<Rightarrow> world \<Rightarrow> world" where
  "setFormData i f w =
     (if i < length (instances w)
      then w\<lparr>instances := (instances w)[i := (instances w ! i)\<lparr>formData := f (formData (instances w ! i))\<rparr>]\<rparr>
      else w)"

definition setIsLoading :: "nat \<Rightarrow> bool \<Rightarrow> world \<Rightarrow> world" where
  "setIsLoading i b w =
     (if i < length (instances w)
      then w\<lparr>instances := (instances w)[i := (instances w ! i)\<lparr>isLoading := b\<rparr>]\<rparr>
      else w)"

definition setEmails :: "nat \<Rightarrow> jsval \<Rightarrow> world \<Rightarrow> world" where
  "setEmails i v w =
     (if i < length (instances w)
      then w\<lparr>instances := (instances w)[i := (instances w ! i)\<lparr>emails := v\<rparr>]\<rparr>
      else w)"

section \<open>The Extract view: handleSubmit\<close>

definition extract_request :: "ExtractFormData \<Rightarrow> request" where
  "extract_request f =
     \<lparr>http_method = ''POST'', url = ''https://scrnk-io.onrender.com/extract/'',
      headers = [(''Content-Type'', ''application/json'')],
      body = Some (JObj [(''email'', JStr (email f)), (''password'', JStr (password f)),
                         (''post_url'', JStr (postUrl f))])\<rparr>"

definition extraction_failed :: toast where
  "extraction_failed =
     \<lparr>title = ''Extraction Failed'',
      description = ''Unable to extract emails. Please check your connection and try again.'',
      variant = ''destructive''\<rparr>"

text \<open>
  The part of \<^verbatim>\<open>handleSubmit\<close> up to \<^verbatim>\<open>await fetch\<close>, run by instance \<open>i\<close> with the
  form data \<open>f\<close> of its current render. \<^verbatim>\<open>e.preventDefault()\<close> only keeps the browser
  from submitting the form itself.
\<close>

definition handleSubmit_start :: "nat \<Rightarrow> ExtractFormData \<Rightarrow> world \<Rightarrow> world" where
  "handleSubmit_start i f w =
     (let w1 = setIsLoading i True w;
          w2 = fetch (extract_request f) w1
      in w2\<lparr>in_flight := in_flight w2 @ [\<lparr>owner = i, captured = f\<rparr>]\<rparr>)"

text \<open>
  The \<^verbatim>\<open>try\<close> block after the fetch has settled: an error for the \<^verbatim>\<open>catch\<close> block, or
  the world after \<^verbatim>\<open>setEmails\<close> and \<^verbatim>\<open>navigate\<close>. Nothing is changed before the last
  statement that can throw.
\<close>

definition handleSubmit_try :: "pending \<Rightarrow> jsval fetched \<Rightarrow> world \<Rightarrow> js_error + world" where
  "handleSubmit_try p out w =
     (case out of
        Rejected \<Rightarrow> Inl FetchRejected
      | Responded st b \<Rightarrow>
          if \<not> ok st then Inl (Error ''Failed to extract emails'')
          else (case b of
                  None \<Rightarrow> Inl SyntaxError
                | Some result \<Rightarrow>
                    (case get_prop result ''emails'' of
                       Inl e \<Rightarrow> Inl e
                     | Inr es \<Rightarrow>
                         Inr (navigate ''/results''
                                (JObj [(''emails'', js_or es (JArr [])),
                                       (''postUrl'', JStr (postUrl (captured p))),
                                       (''status'', JStr ''success'')])
                                (setEmails (owner p) (js_or es (JArr [])) w)))))"

definition handleSubmit_resume :: "pending \<Rightarrow> jsval fetched \<Rightarrow> world \<Rightarrow> world" where
  "handleSubmit_resume p out w =
     setIsLoading (owner p) False
       (case handleSubmit_try p out w of
          Inl e \<Rightarrow> show_toast extraction_failed (console_error ''Extraction error:'' w)
        | Inr w' \<Rightarrow> w')"

text \<open>
  The whole of \<^verbatim>\<open>handleSubmit\<close> when nothing else happens between the submission and
  the moment its request settles with \<open>out\<close>.
\<close>

definition handleSubmit :: "nat \<Rightarrow> ExtractFormData \<Rightarrow> jsval fetched \<Rightarrow> world \<Rightarrow> world" where
  "handleSubmit i f out w =
     (let w1 = handleSubmit_start i f w
      in handleSubmit_resume (last (in_flight w1)) out (w1\<lparr>in_flight := butlast (in_flight w1)\<rparr>))"

section \<open>The Download Helper: handleDownload (Status and Extract views)\<close>

text \<open>The two views carry the same function, character for character.\<close>

definition format_name :: "DownloadFormat \<Rightarrow> string" where
  "format_name fmt = (case fmt of Csv \<Rightarrow> ''csv'' | Txt \<Rightarrow> ''txt'')"

definition download_request :: "DownloadFormat \<Rightarrow> request" where
  "download_request fmt =
     \<lparr>http_method = ''GET'', url = ''http://127.0.0.1:8000/download/?format='' @ format_name fmt,
      headers = [], body = None\<rparr>"

definition download_failed :: toast where
  "download_failed =
     \<lparr>title = ''Download Failed'', description = ''Could not download emails. Try again.'',
      variant = ''destructive''\<rparr>"

definition createObjectURL :: "blob \<Rightarrow> world \<Rightarrow> nat \<times> world" where
  "createObjectURL b w =
     (next_url w, w\<lparr>object_urls := (next_url w, b) # object_urls w, next_url := Suc (next_url w)\<rparr>)"

definition createElement :: "string \<Rightarrow> world \<Rightarrow> node \<times> world" where
  "createElement t w =
     (\<lparr>node_id = next_node w, tag = t, href = None, download = None\<rparr>,
      w\<lparr>next_node := Suc (next_node w)\<rparr>)"

definition appendChild :: "node \<Rightarrow> world \<Rightarrow> world" where
  "appendChild n w = w\<lparr>dom_body := dom_body w @ [n]\<rparr>"

text \<open>
  Clicking an anchor that carries a \<^verbatim>\<open>download\<close> attribute makes the browser save what
  its \<^verbatim>\<open>href\<close> points to under that file name.
\<close>

definition click :: "node \<Rightarrow> world \<Rightarrow> world" where
  "click n w =
     (case (href n, download n) of
        (Some u, Some name) \<Rightarrow>
          (case map_of (object_urls w) u of
             Some b \<Rightarrow> w\<lparr>saves := saves w @ [(name, b)]\<rparr>
           | None \<Rightarrow> w)
      | _ \<Rightarrow> w)"

definition remove_node :: "node \<Rightarrow> world \<Rightarrow> world" where
  "remove_node n w = w\<lparr>dom_body := filter (\<lambda>m. node_id m \<noteq> node_id n) (dom_body w)\<rparr>"

definition handleDownload_start :: "DownloadFormat \<Rightarrow> world \<Rightarrow> world" where
  "handleDownload_start fmt w =
     (let w1 = fetch (download_request fmt) w
      in w1\<lparr>dl_in_flight := dl_in_flight w1 @ [fmt]\<rparr>)"

definition handleDownload_try :: "DownloadFormat \<Rightarrow> blob fetched \<Rightarrow> world \<Rightarrow> js_error + world" where
  "handleDownload_try fmt out w =
     (case out of
        Rejected \<Rightarrow> Inl FetchRejected
      | Responded st b \<Rightarrow>
          if \<not> ok st then Inl (Error ''Download failed'')
          else (case b of
                  None \<Rightarrow> Inl FetchRejected
                | Some blob \<Rightarrow>
                    (let (u, w1) = createObjectURL blob w;
                         (link, w2) = createElement ''a'' w1;
                         link1 = link\<lparr>href := Some u\<rparr>;
                         link2 = link1\<lparr>download := Some (if fmt = Csv then ''emails.csv''
                                                           else ''emails.txt'')\<rparr>;
                         w3 = appendChild link2 w2;
                         w4 = click link2 w3
                     in Inr (remove_node link2 w4))))"

definition handleDownload_resume :: "DownloadFormat \<Rightarrow> blob fetched \<Rightarrow> world \<Rightarrow> world" where
  "handleDownload_resume fmt out w =
     (case handleDownload_try fmt out w of
        Inl e \<Rightarrow> show_toast download_failed (console_error ''Download error:'' w)
      | Inr w' \<Rightarrow> w')"

section \<open>The application as a machine driven by events\<close>

text \<open>
  Every handler of the four pages that changes the application, as an event. A click on
  a control that is disabled or not on screen changes nothing. The two awaits of
  \<^verbatim>\<open>handleSubmit\<close> (and of \<^verbatim>\<open>handleDownload\<close>) are one event: between them the
  function changes nothing and reads only what it has captured. A view is taken to offer
  its controls whenever its route is current, and a submission is taken to pass the
  browser's own check of the input formats; both can only add behaviours.
\<close>

datatype event =
    GetStarted
  | BackToHome
  | Input field string
  | Submit
  | ExtractSettles nat "jsval fetched"
  | Download DownloadFormat
  | DownloadSettles nat "blob fetched"
  | ResultsRenders
  | BackToExtract
  | ViewStatus
  | StartNewExtraction

definition shows_downloads :: "Extract_state \<Rightarrow> bool" where
  "shows_downloads s = (case get_prop (emails s) ''length'' of Inr (JNum n) \<Rightarrow> 0 < n | _ \<Rightarrow> False)"

definition drop_nth :: "nat \<Rightarrow> 'a list \<Rightarrow> 'a list" where
  "drop_nth k xs = take k xs @ drop (Suc k) xs"

fun step :: "event \<Rightarrow> world \<Rightarrow> world" where
  "step GetStarted w =
     (if route (pathname w) = LandingView then navigate ''/extract'' JNull w else w)"
| "step BackToHome w =
     (if route (pathname w) = ExtractView \<or> route (pathname w) = StatusView
      then navigate ''/'' JNull w else w)"
| "step (Input fld v) w =
     (case mounted w of
        None \<Rightarrow> w
      | Some i \<Rightarrow>
          if i < length (instances w) \<and> \<not> input_disabled (instances w ! i)
          then setFormData i (handleInputChange fld v) w else w)"
| "step Submit w =
     (case mounted w of
        None \<Rightarrow> w
      | Some i \<Rightarrow>
          if i < length (instances w) \<and> \<not> submit_disabled (instances w ! i)
          then handleSubmit_start i (formData (instances w ! i)) w else w)"
| "step (ExtractSettles k out) w =
     (if k < length (in_flight w)
      then handleSubmit_resume (in_flight w ! k) out (w\<lparr>in_flight := drop_nth k (in_flight w)\<rparr>)
      else w)"
| "step (Download fmt) w =
     (if route (pathname w) = StatusView \<or>
         (case mounted w of
            None \<Rightarrow> False
          | Some i \<Rightarrow> i < length (instances w) \<and> shows_downloads (instances w ! i))
      then handleDownload_start fmt w else w)"
| "step (DownloadSettles k out) w =
     (if k < length (dl_in_flight w)
      then handleDownload_resume (dl_in_flight w ! k) out
             (w\<lparr>dl_in_flight := drop_nth k (dl_in_flight w)\<rparr>)
      else w)"
| "step ResultsRenders w =
     (if route (pathname w) = ResultsView
      then (case navigates (Results (loc_state w)) of
              None \<Rightarrow> w
            | Some p \<Rightarrow> navigate p JNull w)
      else w)"
| "step BackToExtract w =
     (if route (pathname w) = ResultsView then navigate ''/extract'' JNull w else w)"
| "step ViewStatus w =
     (if route (pathname w) = ResultsView then navigate ''/status'' JNull w else w)"
| "step StartNewExtraction w =
     (if route (pathname w) = StatusView then navigate ''/extract'' JNull w else w)"

text \<open>The application just loaded at path \<open>p\<close>, with no navigation state.\<close>

definition boot :: "string \<Rightarrow> world" where
  "boot p =
     \<lparr>pathname = p, loc_state = JNull, nav_log = [],
      instances = (if route p = ExtractView then [initial_state] else []),
      mounted = (if route p = ExtractView then Some 0 else None),
      in_flight = [], dl_in_flight = [], fetches = [], toasts = [], console = [],
      dom_body = [], next_node = 0, object_urls = [], next_url = 0, saves = []\<rparr>"

definition run :: "event list \<Rightarrow> world \<Rightarrow> world" where
  "run es w = foldl (\<lambda>w e. step e w) w es"


text \<open>
  The whole of \<^verbatim>\<open>handleDownload\<close> when nothing else happens before its request
  settles with \<open>out\<close>.
\<close>

definition handleDownload :: "DownloadFormat \<Rightarrow> blob fetched \<Rightarrow> world \<Rightarrow> world" where
  "handleDownload fmt out w =
     (let w1 = handleDownload_start fmt w
      in handleDownload_resume (last (dl_in_flight w1)) out
           (w1\<lparr>dl_in_flight := butlast (dl_in_flight w1)\<rparr>))"

section \<open>Well-formed worlds\<close>

text \<open>Node identities handed out so far lie below the counter for the next one.\<close>

definition nodes_fresh :: "world \<Rightarrow> bool" where
  "nodes_fresh w = list_all (\<lambda>n. node_id n < next_node w) (dom_body w)"

text \<open>A navigation state is absent, or it carries the status \<^verbatim>\<open>'success'\<close>.\<close>

definition state_ok :: "jsval \<Rightarrow> bool" where
  "state_ok st = (st = JNull \<or> get_prop st ''status'' = Inr (JStr ''success''))"

text \<open>
  What holds of the suspended submissions in every world the machine reaches: each
  belongs to an existing instance whose form still holds the data it was submitted with,
  no instance has two of them, an instance is loading exactly when it has one, and the
  instance on screen exists.
\<close>

definition pending_ok :: "world \<Rightarrow> pending \<Rightarrow> bool" where
  "pending_ok w p =
     (owner p < length (instances w) \<and> formData (instances w ! owner p) = captured p
      \<and> truthy (isFormValid (captured p)))"

definition wf_world :: "world \<Rightarrow> bool" where
  "wf_world w =
     (list_all (pending_ok w) (in_flight w)
      \<and> distinct (map owner (in_flight w))
      \<and> (\<forall>i<length (instances w). isLoading (instances w ! i) = (i \<in> owner ` set (in_flight w)))
      \<and> (case mounted w of None \<Rightarrow> True | Some i \<Rightarrow> i < length (instances w)))"

text \<open>
  What holds of every call of \<^verbatim>\<open>navigate\<close> the machine makes: a navigation to the
  Results route carries a state with status \<^verbatim>\<open>'success'\<close>, any other carries none.
\<close>

definition entry_ok :: "string \<times> jsval \<Rightarrow> bool" where
  "entry_ok e = (if fst e = ''/results'' then get_prop (snd e) ''status'' = Inr (JStr ''success'')
                 else snd e = JNull)"

definition nav_ok :: "world \<Rightarrow> bool" where
  "nav_ok w = (list_all entry_ok (nav_log w) \<and> state_ok (loc_state w))"

section \<open>The form and the Results guard\<close>

lemma get_prop_truthy: "truthy st \<Longrightarrow> \<exists>v. get_prop st k = Inr v"
  by (cases st) auto

lemma map_of_rev_absent: "k \<notin> fst ` set kvs \<Longrightarrow> map_of (rev kvs) k = None"
  by (simp add: map_of_eq_None_iff)

lemma Results_tree_not_null: "Results_tree es u st \<noteq> ReturnsNull"
  by (auto simp: Results_tree_def Let_def split: sum.splits jsval.splits)

lemma Results_tree_undefined: "Results_tree JUndefined u st = Throws TypeError"
  by (simp add: Results_tree_def)

text \<open>
  C5: for every form state, the submit control is enabled exactly when the email, the
  password and the post URL are all non-empty and no request is loading; an empty field
  disables submission.
\<close>

theorem submit_enabled_iff:
  "(\<not> submit_disabled s) =
     (email (formData s) \<noteq> [] \<and> password (formData s) \<noteq> [] \<and> postUrl (formData s) \<noteq> []
      \<and> \<not> isLoading s)"
  by (simp add: submit_disabled_def isFormValid_def js_and_def)

theorem submit_enabled_iff_witness:
  "\<not> submit_disabled \<lparr>formData = \<lparr>email = ''a@b.c'', password = ''pw'', postUrl = ''https://x.y/p''\<rparr>,
                       isLoading = False, emails = JArr []\<rparr>
   \<and> submit_disabled \<lparr>formData = \<lparr>email = ''a@b.c'', password = [], postUrl = ''https://x.y/p''\<rparr>,
                       isLoading = False, emails = JArr []\<rparr>
   \<and> submit_disabled \<lparr>formData = \<lparr>email = ''a@b.c'', password = ''pw'', postUrl = ''https://x.y/p''\<rparr>,
                       isLoading = True, emails = JArr []\<rparr>"
  using submit_enabled_iff [of "\<lparr>formData = \<lparr>email = ''a@b.c'', password = ''pw'', postUrl = ''https://x.y/p''\<rparr>,
                       isLoading = False, emails = JArr []\<rparr>"]
        submit_enabled_iff [of "\<lparr>formData = \<lparr>email = ''a@b.c'', password = [], postUrl = ''https://x.y/p''\<rparr>,
                       isLoading = False, emails = JArr []\<rparr>"]
        submit_enabled_iff [of "\<lparr>formData = \<lparr>email = ''a@b.c'', password = ''pw'', postUrl = ''https://x.y/p''\<rparr>,
                       isLoading = True, emails = JArr []\<rparr>"]
  by simp

text \<open>
  C2: when the Results view is rendered without navigation state (\<^verbatim>\<open>null\<close> or
  \<^verbatim>\<open>undefined\<close>), it calls \<^verbatim>\<open>navigate('/extract')\<close> and returns \<^verbatim>\<open>null\<close>; whenever it
  returns content, a navigation state is present, no redirect is issued, and the state
  carries an \<^verbatim>\<open>emails\<close> value whose length could be read.
\<close>

theorem Results_needs_state:
  "(st = JNull \<or> st = JUndefined \<longrightarrow>
      Results st = \<lparr>navigates = Some ''/extract'', returned = ReturnsNull\<rparr>)
   \<and> (returned (Results st) = Returns v \<longrightarrow>
        st \<noteq> JNull \<and> st \<noteq> JUndefined \<and> navigates (Results st) = None
        \<and> (\<exists>es n. get_prop st ''emails'' = Inr es \<and> get_prop es ''length'' = Inr n))"
  by (auto simp: Results_def Results_tree_def split: if_splits sum.splits)

theorem Results_needs_state_witness:
  "Results JNull = \<lparr>navigates = Some ''/extract'', returned = ReturnsNull\<rparr>
   \<and> returned (Results (JObj [(''emails'', JArr []), (''postUrl'', JStr ''u''), (''status'', JStr ''success'')]))
       = Returns \<lparr>badge_variant = ''default'', badge_label = ''SUCCESS'', found = JNum 0,
                  source_url = JStr ''u'', extracted = JNum 0, listing = NoEmailsFound\<rparr>
   \<and> navigates (Results (JObj [(''emails'', JArr []), (''postUrl'', JStr ''u''), (''status'', JStr ''success'')])) = None"
  using Results_needs_state [of JNull undefined]
    Results_needs_state [of "JObj [(''emails'', JArr []), (''postUrl'', JStr ''u''), (''status'', JStr ''success'')]"
      "\<lparr>badge_variant = ''default'', badge_label = ''SUCCESS'', found = JNum 0,
                  source_url = JStr ''u'', extracted = JNum 0, listing = NoEmailsFound\<rparr>"]
  by (simp add: Results_def Results_tree_def)

text \<open>
  C9: the guard of the Results view looks at the navigation state as a whole only. Every
  state that is an object, whatever its members, passes the guard: no redirect is issued
  and the function does not return \<^verbatim>\<open>null\<close>. It then reads \<^verbatim>\<open>emails.length\<close> unchecked,
  so a state without an \<^verbatim>\<open>emails\<close> member makes the render throw a TypeError.
\<close>

theorem Results_guard_whole_state_only:
  "navigates (Results (JObj kvs)) = None
   \<and> returned (Results (JObj kvs)) \<noteq> ReturnsNull
   \<and> (''emails'' \<notin> fst ` set kvs \<longrightarrow> returned (Results (JObj kvs)) = Throws TypeError)"
  by (simp add: Results_def Results_tree_not_null Results_tree_undefined map_of_rev_absent)

theorem Results_guard_whole_state_only_witness:
  "navigates (Results (JObj [(''note'', JStr ''x'')])) = None
   \<and> returned (Results (JObj [(''note'', JStr ''x'')])) = Throws TypeError"
  using Results_guard_whole_state_only [of "[(''note'', JStr ''x'')]"]
  by simp

section \<open>handleSubmit: what one call does\<close>

lemma navigate_results:
  "navigate ''/results'' st w =
     w\<lparr>pathname := ''/results'', loc_state := st, nav_log := nav_log w @ [(''/results'', st)],
       mounted := None\<rparr>"
  by (simp add: navigate_def route_def Let_def)

lemma handleSubmit_try_ok:
  assumes "ok st" "get_prop result ''emails'' = Inr es"
  shows "handleSubmit_try p (Responded st (Some result)) w =
           Inr (navigate ''/results''
                  (JObj [(''emails'', js_or es (JArr [])), (''postUrl'', JStr (postUrl (captured p))),
                         (''status'', JStr ''success'')])
                  (setEmails (owner p) (js_or es (JArr [])) w))"
  using assms by (simp add: handleSubmit_try_def)

lemma handleSubmit_try_not_ok:
  "\<not> ok st \<Longrightarrow> handleSubmit_try p (Responded st b) w = Inl (Error ''Failed to extract emails'')"
  by (simp add: handleSubmit_try_def)

lemma pathname_setIsLoading [simp]: "pathname (setIsLoading i b w) = pathname w"
  and loc_state_setIsLoading [simp]: "loc_state (setIsLoading i b w) = loc_state w"
  and nav_log_setIsLoading [simp]: "nav_log (setIsLoading i b w) = nav_log w"
  and toasts_setIsLoading [simp]: "toasts (setIsLoading i b w) = toasts w"
  and mounted_setIsLoading [simp]: "mounted (setIsLoading i b w) = mounted w"
  and in_flight_setIsLoading [simp]: "in_flight (setIsLoading i b w) = in_flight w"
  and length_instances_setIsLoading [simp]: "length (instances (setIsLoading i b w)) = length (instances w)"
  by (simp_all add: setIsLoading_def)

lemma pathname_setEmails [simp]: "pathname (setEmails i v w) = pathname w"
  and loc_state_setEmails [simp]: "loc_state (setEmails i v w) = loc_state w"
  and nav_log_setEmails [simp]: "nav_log (setEmails i v w) = nav_log w"
  and toasts_setEmails [simp]: "toasts (setEmails i v w) = toasts w"
  and mounted_setEmails [simp]: "mounted (setEmails i v w) = mounted w"
  and in_flight_setEmails [simp]: "in_flight (setEmails i v w) = in_flight w"
  and length_instances_setEmails [simp]: "length (instances (setEmails i v w)) = length (instances w)"
  by (simp_all add: setEmails_def)

lemma formData_setIsLoading [simp]:
  "map formData (instances (setIsLoading i b w)) = map formData (instances w)"
  by (simp add: setIsLoading_def map_update list_update_same_conv)

lemma formData_setEmails [simp]:
  "map formData (instances (setEmails i v w)) = map formData (instances w)"
  by (simp add: setEmails_def map_update list_update_same_conv)

lemma handleSubmit_start_eq:
  "handleSubmit_start i f w =
     (setIsLoading i True w)\<lparr>fetches := fetches w @ [extract_request f],
                               in_flight := in_flight w @ [\<lparr>owner = i, captured = f\<rparr>]\<rparr>"
  by (simp add: handleSubmit_start_def fetch_def Let_def setIsLoading_def)

lemma handleSubmit_eq:
  "handleSubmit i f out w =
     handleSubmit_resume \<lparr>owner = i, captured = f\<rparr> out
       ((setIsLoading i True w)\<lparr>fetches := fetches w @ [extract_request f]\<rparr>)"
  by (simp add: handleSubmit_def handleSubmit_start_eq Let_def setIsLoading_def)

text \<open>
  C1: when the extraction endpoint answers with a success status (HTTP 200 among them)
  and a JSON object whose \<^verbatim>\<open>emails\<close> member is an array, \<^verbatim>\<open>handleSubmit\<close> navigates to
  the Results route; the navigation state has status \<^verbatim>\<open>'success'\<close>, the same array as
  \<^verbatim>\<open>emails\<close> (same elements, same order) and, as \<^verbatim>\<open>postUrl\<close>, the URL of the submitted
  form, which is also the \<^verbatim>\<open>post_url\<close> of the request that was sent.
\<close>

theorem handleSubmit_success:
  assumes "ok st" and "map_of (rev kvs) ''emails'' = Some (JArr xs)"
  shows "pathname (handleSubmit i f (Responded st (Some (JObj kvs))) w) = ''/results''
         \<and> loc_state (handleSubmit i f (Responded st (Some (JObj kvs))) w)
             = JObj [(''emails'', JArr xs), (''postUrl'', JStr (postUrl f)), (''status'', JStr ''success'')]
         \<and> body (last (fetches (handleSubmit i f (Responded st (Some (JObj kvs))) w)))
             = Some (JObj [(''email'', JStr (email f)), (''password'', JStr (password f)),
                           (''post_url'', JStr (postUrl f))])"
  using assms
  by (simp add: handleSubmit_eq handleSubmit_resume_def handleSubmit_try_ok navigate_results js_or_def
      setIsLoading_def setEmails_def extract_request_def)


theorem handleSubmit_success_witness:
  "ok 200 \<and> map_of (rev [(''emails'', JArr [JStr ''a@x.com'', JStr ''b@y.com''])]) ''emails''
              = Some (JArr [JStr ''a@x.com'', JStr ''b@y.com''])
   \<and> pathname (handleSubmit 0 \<lparr>email = ''me@x.com'', password = ''pw'', postUrl = ''https://x.y/p''\<rparr>
         (Responded 200 (Some (JObj [(''emails'', JArr [JStr ''a@x.com'', JStr ''b@y.com''])])))
         (boot ''/extract'')) = ''/results''
   \<and> loc_state (handleSubmit 0 \<lparr>email = ''me@x.com'', password = ''pw'', postUrl = ''https://x.y/p''\<rparr>
         (Responded 200 (Some (JObj [(''emails'', JArr [JStr ''a@x.com'', JStr ''b@y.com''])])))
         (boot ''/extract''))
       = JObj [(''emails'', JArr [JStr ''a@x.com'', JStr ''b@y.com'']),
               (''postUrl'', JStr ''https://x.y/p''), (''status'', JStr ''success'')]"
proof -
  have h1: "ok 200" by (simp add: ok_def)
  have h2: "map_of (rev [(''emails'', JArr [JStr ''a@x.com'', JStr ''b@y.com''])]) ''emails''
              = Some (JArr [JStr ''a@x.com'', JStr ''b@y.com''])" by simp
  show ?thesis
    using h1 h2 handleSubmit_success [OF h1 h2, of 0
        "\<lparr>email = ''me@x.com'', password = ''pw'', postUrl = ''https://x.y/p''\<rparr>" "boot ''/extract''"]
    by simp
qed

text \<open>
  C7: when the extraction endpoint answers with a success status and a JSON object that
  has no \<^verbatim>\<open>emails\<close> key, the \<^verbatim>\<open>emails\<close> passed on to the Results view is the empty
  list.
\<close>

theorem handleSubmit_missing_emails:
  assumes "ok st" and "''emails'' \<notin> fst ` set kvs"
  shows "pathname (handleSubmit i f (Responded st (Some (JObj kvs))) w) = ''/results''
         \<and> loc_state (handleSubmit i f (Responded st (Some (JObj kvs))) w)
             = JObj [(''emails'', JArr []), (''postUrl'', JStr (postUrl f)), (''status'', JStr ''success'')]"
  using assms
  by (simp add: handleSubmit_eq handleSubmit_resume_def handleSubmit_try_ok navigate_results js_or_def
      setIsLoading_def setEmails_def map_of_rev_absent)

theorem handleSubmit_missing_emails_witness:
  "ok 200 \<and> ''emails'' \<notin> fst ` set [(''count'', JNum 0)]
   \<and> loc_state (handleSubmit 0 \<lparr>email = ''me@x.com'', password = ''pw'', postUrl = ''https://x.y/p''\<rparr>
         (Responded 200 (Some (JObj [(''count'', JNum 0)]))) (boot ''/extract''))
       = JObj [(''emails'', JArr []), (''postUrl'', JStr ''https://x.y/p''), (''status'', JStr ''success'')]"
proof -
  have h1: "ok 200" by (simp add: ok_def)
  have h2: "''emails'' \<notin> fst ` set [(''count'', JNum 0)]" by simp
  show ?thesis
    using h1 h2 handleSubmit_missing_emails [OF h1 h2, of 0
        "\<lparr>email = ''me@x.com'', password = ''pw'', postUrl = ''https://x.y/p''\<rparr>" "boot ''/extract''"]
    by simp
qed

lemma handleSubmit_resume_failed:
  assumes "handleSubmit_try p out w = Inl e"
  shows "handleSubmit_resume p out w =
           setIsLoading (owner p) False
             (w\<lparr>console := console w @ [''Extraction error:''], toasts := toasts w @ [extraction_failed]\<rparr>)"
  using assms by (simp add: handleSubmit_resume_def show_toast_def console_error_def)

text \<open>
  C3: when the extraction endpoint answers outside 200..299 (HTTP 500, say),
  \<^verbatim>\<open>handleSubmit\<close> does not navigate (location, navigation log and mounted view are as
  before), shows exactly one more notification, the error toast, and leaves the form data
  of every instance as it was.
\<close>

theorem handleSubmit_http_error:
  assumes "\<not> ok st"
  shows "pathname (handleSubmit i f (Responded st b) w) = pathname w
         \<and> loc_state (handleSubmit i f (Responded st b) w) = loc_state w
         \<and> nav_log (handleSubmit i f (Responded st b) w) = nav_log w
         \<and> mounted (handleSubmit i f (Responded st b) w) = mounted w
         \<and> toasts (handleSubmit i f (Responded st b) w) = toasts w @ [extraction_failed]
         \<and> map formData (instances (handleSubmit i f (Responded st b) w)) = map formData (instances w)"
  using assms
  by (simp add: handleSubmit_eq handleSubmit_resume_failed [OF handleSubmit_try_not_ok])

theorem handleSubmit_http_error_witness:
  "\<not> ok 500
   \<and> pathname (handleSubmit 0 \<lparr>email = ''me@x.com'', password = ''pw'', postUrl = ''https://x.y/p''\<rparr>
        (Responded 500 None) (boot ''/extract'')) = ''/extract''
   \<and> toasts (handleSubmit 0 \<lparr>email = ''me@x.com'', password = ''pw'', postUrl = ''https://x.y/p''\<rparr>
        (Responded 500 None) (boot ''/extract'')) = [extraction_failed]"
proof -
  have h: "\<not> ok 500" by (simp add: ok_def)
  show ?thesis
    using h handleSubmit_http_error [OF h, of 0
        "\<lparr>email = ''me@x.com'', password = ''pw'', postUrl = ''https://x.y/p''\<rparr>" None "boot ''/extract''"]
    by (simp add: boot_def)
qed

text \<open>
  A body that is the JSON value \<^verbatim>\<open>null\<close> is no object: reading \<^verbatim>\<open>result.emails\<close> throws,
  and the call ends in the \<^verbatim>\<open>catch\<close> block like any other failure.
\<close>

lemma handleSubmit_null_body:
  assumes "ok st"
  shows "nav_log (handleSubmit i f (Responded st (Some JNull)) w) = nav_log w
         \<and> toasts (handleSubmit i f (Responded st (Some JNull)) w) = toasts w @ [extraction_failed]"
proof -
  have "handleSubmit_try p (Responded st (Some JNull)) v = Inl TypeError" for p v
    using assms by (simp add: handleSubmit_try_def)
  then show ?thesis
    by (simp add: handleSubmit_eq handleSubmit_resume_failed)
qed

lemma setIsLoading_nth:
  "i < length (instances w) \<Longrightarrow> isLoading (instances (setIsLoading i b w) ! i) = b"
  by (simp add: setIsLoading_def)

lemma length_instances_navigate: "length (instances w) \<le> length (instances (navigate p st w))"
  by (simp add: navigate_def Let_def)

lemma length_instances_resume:
  "length (instances w) \<le> length (instances (handleSubmit_resume p out w))"
  by (auto simp: handleSubmit_resume_def handleSubmit_try_def navigate_results show_toast_def
      console_error_def split: sum.splits fetched.splits option.splits if_splits)

lemma handleSubmit_resume_not_loading:
  assumes "owner p < length (instances w)"
  shows "\<not> isLoading (instances (handleSubmit_resume p out w) ! owner p)"
proof -
  let ?w = "case handleSubmit_try p out w of
              Inl e \<Rightarrow> show_toast extraction_failed (console_error ''Extraction error:'' w)
            | Inr w' \<Rightarrow> w'"
  have "owner p < length (instances ?w)"
    using assms
    by (auto simp: handleSubmit_try_def navigate_results show_toast_def console_error_def
        split: sum.splits fetched.splits option.splits if_splits)
  then show ?thesis
    by (simp add: handleSubmit_resume_def setIsLoading_nth)
qed

lemma handleSubmit_resume_formData:
  "map formData (instances (handleSubmit_resume p out w)) = map formData (instances w)"
  by (auto simp: handleSubmit_resume_def handleSubmit_try_def navigate_results show_toast_def
      console_error_def split: sum.splits fetched.splits option.splits if_splits)


section \<open>handleDownload: what one call does\<close>

lemma handleDownload_eq:
  "handleDownload fmt out w =
     handleDownload_resume fmt out (w\<lparr>fetches := fetches w @ [download_request fmt]\<rparr>)"
  by (simp add: handleDownload_def handleDownload_start_def fetch_def Let_def)

lemma filter_fresh_node:
  "list_all (\<lambda>n. node_id n < k) ns \<Longrightarrow> filter (\<lambda>m. node_id m \<noteq> k) (ns @ [l\<lparr>node_id := k\<rparr>]) = ns"
  by (induction ns) auto

lemma handleDownload_try_ok:
  assumes "ok st"
  shows "handleDownload_try fmt (Responded st (Some b)) w =
           Inr (w\<lparr>object_urls := (next_url w, b) # object_urls w, next_url := Suc (next_url w),
                  next_node := Suc (next_node w),
                  saves := saves w @ [(if fmt = Csv then ''emails.csv'' else ''emails.txt'', b)],
                  dom_body := filter (\<lambda>m. node_id m \<noteq> next_node w)
                     (dom_body w @ [\<lparr>node_id = next_node w, tag = ''a'', href = Some (next_url w),
                        download = Some (if fmt = Csv then ''emails.csv'' else ''emails.txt'')\<rparr>])\<rparr>)"
  using assms
  by (simp add: handleDownload_try_def createObjectURL_def createElement_def appendChild_def
      click_def remove_node_def Let_def)

text \<open>
  C8: when the download endpoint answers with a success status (HTTP 200 among them),
  the helper makes the browser save the received blob once, under \<^verbatim>\<open>emails.csv\<close> for
  the format csv and \<^verbatim>\<open>emails.txt\<close> for txt; the anchor it appended is removed again,
  so the children of the document body are what they were, and no toast is shown.
\<close>

theorem handleDownload_saves_fixed_name:
  assumes "ok st" and "nodes_fresh w"
  shows "saves (handleDownload fmt (Responded st (Some b)) w)
           = saves w @ [(case fmt of Csv \<Rightarrow> ''emails.csv'' | Txt \<Rightarrow> ''emails.txt'', b)]
         \<and> dom_body (handleDownload fmt (Responded st (Some b)) w) = dom_body w
         \<and> toasts (handleDownload fmt (Responded st (Some b)) w) = toasts w"
proof -
  have "filter (\<lambda>m. node_id m \<noteq> next_node w)
          (dom_body w @ [\<lparr>node_id = next_node w, tag = ''a'', href = Some (next_url w),
               download = Some (if fmt = Csv then ''emails.csv'' else ''emails.txt'')\<rparr>]) = dom_body w"
    using assms(2) filter_fresh_node [of "next_node w" "dom_body w"
        "\<lparr>node_id = next_node w, tag = ''a'', href = Some (next_url w),
               download = Some (if fmt = Csv then ''emails.csv'' else ''emails.txt'')\<rparr>"]
    by (simp add: nodes_fresh_def)
  then show ?thesis
    using assms(1)
    by (cases fmt) (simp_all add: handleDownload_eq handleDownload_resume_def handleDownload_try_ok)
qed

theorem handleDownload_saves_fixed_name_witness:
  "ok 200
   \<and> nodes_fresh ((boot ''/status'')\<lparr>dom_body := [\<lparr>node_id = 0, tag = ''div'', href = None, download = None\<rparr>],
                                      next_node := 1\<rparr>)
   \<and> saves (handleDownload Txt (Responded 200 (Some ''a@x.com''))
        ((boot ''/status'')\<lparr>dom_body := [\<lparr>node_id = 0, tag = ''div'', href = None, download = None\<rparr>],
                            next_node := 1\<rparr>))
       = [(''emails.txt'', ''a@x.com'')]
   \<and> dom_body (handleDownload Txt (Responded 200 (Some ''a@x.com''))
        ((boot ''/status'')\<lparr>dom_body := [\<lparr>node_id = 0, tag = ''div'', href = None, download = None\<rparr>],
                            next_node := 1\<rparr>))
       = [\<lparr>node_id = 0, tag = ''div'', href = None, download = None\<rparr>]"
proof -
  let ?w = "(boot ''/status'')\<lparr>dom_body := [\<lparr>node_id = 0, tag = ''div'', href = None, download = None\<rparr>],
                                next_node := 1\<rparr>"
  have h1: "ok 200" by (simp add: ok_def)
  have h2: "nodes_fresh ?w" by (simp add: nodes_fresh_def boot_def)
  show ?thesis
    using h1 h2 handleDownload_saves_fixed_name [OF h1 h2, of Txt "''a@x.com''"]
    by (simp add: boot_def)
qed

section \<open>Invariants of the machine\<close>

lemma wf_boot: "wf_world (boot p)"
  by (simp add: wf_world_def boot_def initial_state_def)

lemma wf_navigate: "wf_world w \<Longrightarrow> wf_world (navigate p st w)"
  by (auto simp: wf_world_def navigate_def Let_def pending_ok_def list_all_iff nth_append
      initial_state_def less_Suc_eq split: option.splits)

lemma wf_setFormData:
  "wf_world w \<Longrightarrow> i < length (instances w) \<Longrightarrow> \<not> isLoading (instances w ! i)
     \<Longrightarrow> wf_world (setFormData i f w)"
  by (auto simp: wf_world_def setFormData_def pending_ok_def list_all_iff nth_list_update
      split: option.splits)

lemma wf_start:
  "wf_world w \<Longrightarrow> i < length (instances w) \<Longrightarrow> \<not> submit_disabled (instances w ! i)
     \<Longrightarrow> wf_world (handleSubmit_start i (formData (instances w ! i)) w)"
  by (auto simp: wf_world_def handleSubmit_start_eq setIsLoading_def pending_ok_def list_all_iff
      nth_list_update submit_disabled_def split: option.splits)


lemma set_drop_nth: "k < length xs \<Longrightarrow> set xs = insert (xs ! k) (set (drop_nth k xs))"
proof -
  assume k: "k < length xs"
  have "set xs = set (take k xs @ xs ! k # drop (Suc k) xs)"
    using id_take_nth_drop [OF k] by simp
  then show ?thesis by (auto simp: drop_nth_def)
qed

lemma distinct_drop_nth:
  assumes "k < length xs" and "distinct (map f xs)"
  shows "distinct (map f (drop_nth k xs)) \<and> f (xs ! k) \<notin> f ` set (drop_nth k xs)"
proof -
  have "distinct (map f (take k xs @ xs ! k # drop (Suc k) xs))"
    using id_take_nth_drop [OF assms(1)] assms(2) by simp
  then show ?thesis by (auto simp: drop_nth_def)
qed

lemma resume_in_flight [simp]: "in_flight (handleSubmit_resume p out w) = in_flight w"
  by (auto simp: handleSubmit_resume_def handleSubmit_try_def navigate_results show_toast_def
      console_error_def split: sum.splits fetched.splits option.splits if_splits)

lemma resume_mounted:
  "mounted (handleSubmit_resume p out w) = None \<or> mounted (handleSubmit_resume p out w) = mounted w"
  by (auto simp: handleSubmit_resume_def handleSubmit_try_def navigate_results show_toast_def
      console_error_def split: sum.splits fetched.splits option.splits if_splits)

lemma resume_instances:
  assumes "owner p < length (instances w)"
  shows "\<exists>v. instances (handleSubmit_resume p out w)
           = (instances w)[owner p := (instances w ! owner p)\<lparr>emails := v, isLoading := False\<rparr>]"
proof (cases "handleSubmit_try p out w")
  case (Inl e)
  have "instances (handleSubmit_resume p out w)
          = (instances w)[owner p := (instances w ! owner p)\<lparr>emails := emails (instances w ! owner p),
               isLoading := False\<rparr>]"
    using assms Inl by (simp add: handleSubmit_resume_failed setIsLoading_def)
  then show ?thesis by blast
next
  case (Inr w')
  then obtain v where "w' = navigate ''/results''
        (JObj [(''emails'', v), (''postUrl'', JStr (postUrl (captured p))), (''status'', JStr ''success'')])
        (setEmails (owner p) v w)"
    by (auto simp: handleSubmit_try_def split: fetched.splits option.splits if_splits sum.splits)
  then have "instances (handleSubmit_resume p out w)
          = (instances w)[owner p := (instances w ! owner p)\<lparr>emails := v, isLoading := False\<rparr>]"
    using assms Inr by (simp add: handleSubmit_resume_def navigate_results setIsLoading_def setEmails_def)
  then show ?thesis by blast
qed

lemma wf_resume:
  assumes wf: "wf_world w" and k: "k < length (in_flight w)"
  shows "wf_world (handleSubmit_resume (in_flight w ! k) out (w\<lparr>in_flight := drop_nth k (in_flight w)\<rparr>))"
proof -
  let ?p = "in_flight w ! k"
  let ?v = "w\<lparr>in_flight := drop_nth k (in_flight w)\<rparr>"
  let ?w' = "handleSubmit_resume ?p out ?v"
  have pin: "?p \<in> set (in_flight w)" using k by simp
  have own: "owner ?p < length (instances w)"
    using wf pin by (auto simp: wf_world_def list_all_iff pending_ok_def)
  obtain v where inst: "instances ?w'
       = (instances w)[owner ?p := (instances w ! owner ?p)\<lparr>emails := v, isLoading := False\<rparr>]"
    using resume_instances [of ?p ?v out] own by auto
  have fl: "in_flight ?w' = drop_nth k (in_flight w)" by simp
  have sub: "set (in_flight w) = insert ?p (set (drop_nth k (in_flight w)))"
    using set_drop_nth [OF k] .
  have dist: "distinct (map owner (drop_nth k (in_flight w)))"
    and notin: "owner ?p \<notin> owner ` set (drop_nth k (in_flight w))"
    using distinct_drop_nth [OF k, of owner] wf by (auto simp: wf_world_def)
  have m: "mounted ?w' = None \<or> mounted ?w' = mounted w"
    using resume_mounted [of ?p out ?v] by simp
  have a: "list_all (pending_ok ?w') (in_flight ?w')"
    using wf sub notin own
    by (auto simp: wf_world_def list_all_iff pending_ok_def inst fl nth_list_update)
  have c: "\<forall>i<length (instances ?w'). isLoading (instances ?w' ! i) = (i \<in> owner ` set (in_flight ?w'))"
    using wf sub notin own
    by (auto simp: wf_world_def inst fl nth_list_update)
  have d: "case mounted ?w' of None \<Rightarrow> True | Some i \<Rightarrow> i < length (instances ?w')"
    using wf m by (auto simp: wf_world_def inst split: option.splits)
  show ?thesis
    unfolding wf_world_def using a dist c d fl by simp
qed


lemma download_start_fields [simp]:
  "instances (handleDownload_start fmt w) = instances w"
  "in_flight (handleDownload_start fmt w) = in_flight w"
  "mounted (handleDownload_start fmt w) = mounted w"
  "nav_log (handleDownload_start fmt w) = nav_log w"
  "loc_state (handleDownload_start fmt w) = loc_state w"
  by (simp_all add: handleDownload_start_def fetch_def Let_def)

lemma download_resume_fields [simp]:
  "instances (handleDownload_resume fmt out w) = instances w"
  "in_flight (handleDownload_resume fmt out w) = in_flight w"
  "mounted (handleDownload_resume fmt out w) = mounted w"
  "nav_log (handleDownload_resume fmt out w) = nav_log w"
  "loc_state (handleDownload_resume fmt out w) = loc_state w"
  by (auto simp: handleDownload_resume_def handleDownload_try_def show_toast_def console_error_def
      createObjectURL_def createElement_def appendChild_def click_def remove_node_def Let_def
      split: sum.splits fetched.splits option.splits if_splits)

lemma wf_world_cong:
  "instances w' = instances w \<Longrightarrow> in_flight w' = in_flight w \<Longrightarrow> mounted w' = mounted w
     \<Longrightarrow> wf_world w' = wf_world w"
  by (simp add: wf_world_def pending_ok_def list_all_iff split: option.splits)

lemma wf_step: "wf_world w \<Longrightarrow> wf_world (step e w)"
proof (cases e)
  case (Input fld v)
  assume "wf_world w"
  then show ?thesis
    using Input by (auto simp: input_disabled_def wf_setFormData split: option.splits)
next
  case Submit
  assume "wf_world w"
  then show ?thesis
    using Submit by (auto simp: wf_start split: option.splits)
next
  case (ExtractSettles k out)
  assume "wf_world w"
  then show ?thesis
    using ExtractSettles by (simp add: wf_resume)
next
  case (Download fmt)
  assume "wf_world w"
  then show ?thesis
    using Download wf_world_cong [of "handleDownload_start fmt w" w] by simp
next
  case (DownloadSettles k out)
  assume wf: "wf_world w"
  let ?v = "w\<lparr>dl_in_flight := drop_nth k (dl_in_flight w)\<rparr>"
  have "wf_world (handleDownload_resume (dl_in_flight w ! k) out ?v) = wf_world w"
    by (rule wf_world_cong) simp_all
  then show ?thesis
    using DownloadSettles wf by simp
qed (auto simp: wf_navigate split: option.splits)

lemma wf_run: "wf_world w \<Longrightarrow> wf_world (run es w)"
  unfolding run_def by (induction es arbitrary: w) (simp_all add: wf_step)

lemma wf_reachable: "wf_world (run es (boot p))"
  by (rule wf_run [OF wf_boot])

lemma nav_ok_boot: "nav_ok (boot p)"
  by (simp add: nav_ok_def boot_def state_ok_def)

lemma nav_ok_navigate_null:
  "nav_ok w \<Longrightarrow> p \<noteq> ''/results'' \<Longrightarrow> nav_ok (navigate p JNull w)"
  by (simp add: nav_ok_def navigate_def Let_def entry_ok_def state_ok_def)

lemma nav_ok_cong:
  "nav_log w' = nav_log w \<Longrightarrow> loc_state w' = loc_state w \<Longrightarrow> nav_ok w' = nav_ok w"
  by (simp add: nav_ok_def)

lemma nav_ok_resume: "nav_ok w \<Longrightarrow> nav_ok (handleSubmit_resume p out w)"
proof (cases "handleSubmit_try p out w")
  case (Inl e)
  assume "nav_ok w"
  then show ?thesis
    using Inl by (simp add: handleSubmit_resume_failed nav_ok_def)
next
  case (Inr w')
  assume ok: "nav_ok w"
  obtain v where "w' = navigate ''/results''
        (JObj [(''emails'', v), (''postUrl'', JStr (postUrl (captured p))), (''status'', JStr ''success'')])
        (setEmails (owner p) v w)"
    using Inr by (auto simp: handleSubmit_try_def split: fetched.splits option.splits if_splits sum.splits)
  then show ?thesis
    using ok Inr
    by (simp add: handleSubmit_resume_def navigate_results nav_ok_def entry_ok_def state_ok_def)
qed

lemma Results_navigates: "navigates (Results st) = Some p \<Longrightarrow> p = ''/extract''"
  by (auto simp: Results_def split: if_splits)

lemma nav_ok_step: "nav_ok w \<Longrightarrow> nav_ok (step e w)"
proof (cases e)
  case (Input fld v)
  assume "nav_ok w"
  then show ?thesis
    using Input by (auto simp: nav_ok_def setFormData_def split: option.splits)
next
  case Submit
  assume "nav_ok w"
  then show ?thesis
    using Submit by (auto simp: nav_ok_def handleSubmit_start_eq split: option.splits)
next
  case (ExtractSettles k out)
  assume ok: "nav_ok w"
  have "nav_ok (w\<lparr>in_flight := drop_nth k (in_flight w)\<rparr>)"
    using ok by (simp add: nav_ok_def)
  then show ?thesis
    using ExtractSettles ok by (simp add: nav_ok_resume)
next
  case (Download fmt)
  assume "nav_ok w"
  then show ?thesis
    using Download nav_ok_cong [of "handleDownload_start fmt w" w] by simp
next
  case (DownloadSettles k out)
  assume ok: "nav_ok w"
  let ?v = "w\<lparr>dl_in_flight := drop_nth k (dl_in_flight w)\<rparr>"
  have "nav_ok (handleDownload_resume (dl_in_flight w ! k) out ?v) = nav_ok w"
    by (rule nav_ok_cong) simp_all
  then show ?thesis
    using DownloadSettles ok by simp
next
  case ResultsRenders
  assume "nav_ok w"
  then show ?thesis
    using ResultsRenders
    by (auto simp: nav_ok_navigate_null dest!: Results_navigates split: option.splits)
qed (auto simp: nav_ok_navigate_null)

lemma nav_ok_run: "nav_ok w \<Longrightarrow> nav_ok (run es w)"
  unfolding run_def by (induction es arbitrary: w) (simp_all add: nav_ok_step)

lemma nav_ok_reachable: "nav_ok (run es (boot p))"
  by (rule nav_ok_run [OF nav_ok_boot])



section \<open>What the machine never does\<close>

text \<open>
  C4: in every world the application reaches, from any start path and under any sequence
  of events, no navigation state with status \<^verbatim>\<open>'failure'\<close> has been built: every call of
  \<^verbatim>\<open>navigate\<close> to the Results route carried a state with status \<^verbatim>\<open>'success'\<close>, every
  other call carried no state, and the current \<^verbatim>\<open>location.state\<close> is absent or has status
  \<^verbatim>\<open>'success'\<close>.
\<close>

theorem no_failure_status_constructed:
  "state_ok (loc_state (run es (boot p)))
   \<and> get_prop (loc_state (run es (boot p))) ''status'' \<noteq> Inr (JStr ''failure'')
   \<and> (\<forall>e \<in> set (nav_log (run es (boot p))).
         entry_ok e \<and> get_prop (snd e) ''status'' \<noteq> Inr (JStr ''failure''))"
proof -
  have ok: "nav_ok (run es (boot p))" by (rule nav_ok_reachable)
  have a: "state_ok st \<Longrightarrow> get_prop st ''status'' \<noteq> Inr (JStr ''failure'')" for st
    by (auto simp: state_ok_def)
  have b: "entry_ok e \<Longrightarrow> get_prop (snd e) ''status'' \<noteq> Inr (JStr ''failure'')" for e
    by (auto simp: entry_ok_def split: if_splits)
  show ?thesis
    using ok a b by (auto simp: nav_ok_def list_all_iff)
qed

theorem no_failure_status_constructed_witness:
  "(''/results'', JObj [(''emails'', JArr []), (''postUrl'', JStr ''https://x.y/p''), (''status'', JStr ''success'')])
     \<in> set (nav_log (run [Input Email ''a@b.c'', Input Password ''pw'', Input PostUrl ''https://x.y/p'', Submit,
                          ExtractSettles 0 (Responded 200 (Some (JObj [])))] (boot ''/extract'')))
   \<and> entry_ok (''/results'', JObj [(''emails'', JArr []), (''postUrl'', JStr ''https://x.y/p''), (''status'', JStr ''success'')])
   \<and> get_prop (JObj [(''emails'', JArr []), (''postUrl'', JStr ''https://x.y/p''), (''status'', JStr ''success'')]) ''status''
       \<noteq> Inr (JStr ''failure'')"
proof -
  let ?es = "[Input Email ''a@b.c'', Input Password ''pw'', Input PostUrl ''https://x.y/p'', Submit,
              ExtractSettles 0 (Responded 200 (Some (JObj [])))]"
  let ?e = "(''/results'', JObj [(''emails'', JArr []), (''postUrl'', JStr ''https://x.y/p''), (''status'', JStr ''success'')])"
  have h: "?e \<in> set (nav_log (run ?es (boot ''/extract'')))"
    by code_simp
  show ?thesis
    using h no_failure_status_constructed [of ?es "''/extract''"] by auto
qed

text \<open>
  C6 as stated, that no second extraction request is ever issued while one is in flight,
  fails: a request is submitted, the user leaves through "Back to Home" (which is not
  disabled while loading) and comes back through "Get Started"; the Extract view is
  mounted afresh with \<^verbatim>\<open>isLoading\<close> false, and a second request is submitted while the
  first has not settled.
\<close>

theorem second_request_counterexample:
  "\<not> length (in_flight (run [Input Email ''a@b.c'', Input Password ''pw'', Input PostUrl ''https://x.y/p'', Submit,
                            BackToHome, GetStarted,
                            Input Email ''a@b.c'', Input Password ''pw'', Input PostUrl ''https://x.y/p'', Submit]
                        (boot ''/extract''))) \<le> 1"
  by code_simp

text \<open>
  C6, amended: within one mounted instance of the Extract view no second request is
  issued while the instance's request is in flight. In every reachable world no instance
  owns two requests in flight, and while the instance on screen owns one, its submit
  control and its inputs are disabled and a click on submit changes nothing.
\<close>

theorem one_request_per_instance:
  "distinct (map owner (in_flight (run es (boot p))))
   \<and> (\<forall>i. mounted (run es (boot p)) = Some i \<and> i \<in> owner ` set (in_flight (run es (boot p)))
          \<longrightarrow> submit_disabled (instances (run es (boot p)) ! i)
              \<and> input_disabled (instances (run es (boot p)) ! i)
              \<and> step Submit (run es (boot p)) = run es (boot p))"
proof -
  let ?w = "run es (boot p)"
  have wf: "wf_world ?w" by (rule wf_reachable)
  have "isLoading (instances ?w ! i)" if "mounted ?w = Some i" "i \<in> owner ` set (in_flight ?w)" for i
    using wf that by (auto simp: wf_world_def)
  then show ?thesis
    using wf by (auto simp: wf_world_def submit_disabled_def input_disabled_def)
qed

theorem one_request_per_instance_witness:
  "mounted (run [Input Email ''a@b.c'', Input Password ''pw'', Input PostUrl ''https://x.y/p'', Submit]
             (boot ''/extract'')) = Some 0
   \<and> 0 \<in> owner ` set (in_flight (run [Input Email ''a@b.c'', Input Password ''pw'',
                                        Input PostUrl ''https://x.y/p'', Submit] (boot ''/extract'')))
   \<and> step Submit (run [Input Email ''a@b.c'', Input Password ''pw'', Input PostUrl ''https://x.y/p'', Submit]
                    (boot ''/extract''))
       = run [Input Email ''a@b.c'', Input Password ''pw'', Input PostUrl ''https://x.y/p'', Submit]
           (boot ''/extract'')"
proof -
  let ?es = "[Input Email ''a@b.c'', Input Password ''pw'', Input PostUrl ''https://x.y/p'', Submit]"
  have h1: "mounted (run ?es (boot ''/extract'')) = Some 0"
    by code_simp
  have h2: "0 \<in> owner ` set (in_flight (run ?es (boot ''/extract'')))"
    by code_simp
  show ?thesis
    using h1 h2 one_request_per_instance [of ?es "''/extract''"] by blast
qed

text \<open>
  C10: every completion of \<^verbatim>\<open>handleSubmit\<close>, whatever the outcome of the request (the
  fetch rejected, a status outside 200..299, a body that is not JSON, or success), leaves
  the loading flag of the submitting instance false. In every reachable world, when a
  request in flight settles, the flag of its instance is false afterwards and both the
  inputs and the submit control of that form are enabled; and an instance is loading
  exactly while it has a request in flight.
\<close>

theorem loading_only_while_in_flight:
  "(i < length (instances w) \<longrightarrow> \<not> isLoading (instances (handleSubmit i f out w) ! i))
   \<and> (\<forall>k<length (in_flight (run es (boot p))).
        \<not> isLoading (instances (step (ExtractSettles k out') (run es (boot p)))
                        ! owner (in_flight (run es (boot p)) ! k))
        \<and> \<not> input_disabled (instances (step (ExtractSettles k out') (run es (boot p)))
                        ! owner (in_flight (run es (boot p)) ! k))
        \<and> \<not> submit_disabled (instances (step (ExtractSettles k out') (run es (boot p)))
                        ! owner (in_flight (run es (boot p)) ! k)))
   \<and> (\<forall>j<length (instances (run es (boot p))).
        isLoading (instances (run es (boot p)) ! j) = (j \<in> owner ` set (in_flight (run es (boot p)))))"
proof -
  let ?w = "run es (boot p)"
  have wf: "wf_world ?w" by (rule wf_reachable)
  have one: "i < length (instances w) \<longrightarrow> \<not> isLoading (instances (handleSubmit i f out w) ! i)"
    using handleSubmit_resume_not_loading [of "\<lparr>owner = i, captured = f\<rparr>"
        "(setIsLoading i True w)\<lparr>fetches := fetches w @ [extract_request f]\<rparr>" out]
    by (simp add: handleSubmit_eq)
  have two: "\<not> isLoading (instances (step (ExtractSettles k out') ?w) ! owner (in_flight ?w ! k))
        \<and> \<not> input_disabled (instances (step (ExtractSettles k out') ?w) ! owner (in_flight ?w ! k))
        \<and> \<not> submit_disabled (instances (step (ExtractSettles k out') ?w) ! owner (in_flight ?w ! k))"
    if k: "k < length (in_flight ?w)" for k
  proof -
    let ?q = "in_flight ?w ! k"
    let ?v = "?w\<lparr>in_flight := drop_nth k (in_flight ?w)\<rparr>"
    have "?q \<in> set (in_flight ?w)" using k by simp
    then have pok: "pending_ok ?w ?q"
      using wf by (simp add: wf_world_def list_all_iff)
    obtain v where inst: "instances (handleSubmit_resume ?q out' ?v)
         = (instances ?w)[owner ?q := (instances ?w ! owner ?q)\<lparr>emails := v, isLoading := False\<rparr>]"
      using resume_instances [of ?q ?v out'] pok by (auto simp: pending_ok_def)
    show ?thesis
      using k pok by (simp add: inst pending_ok_def input_disabled_def submit_disabled_def)
  qed
  have three: "\<forall>j<length (instances ?w). isLoading (instances ?w ! j) = (j \<in> owner ` set (in_flight ?w))"
    using wf by (simp add: wf_world_def)
  show ?thesis
    using one two three by blast
qed


theorem loading_only_while_in_flight_witness:
  "0 < length (instances (boot ''/extract''))
   \<and> \<not> isLoading (instances (handleSubmit 0 \<lparr>email = ''a@b.c'', password = ''pw'', postUrl = ''https://x.y/p''\<rparr>
                      Rejected (boot ''/extract'')) ! 0)
   \<and> 0 < length (in_flight (run [Input Email ''a@b.c'', Input Password ''pw'',
                                  Input PostUrl ''https://x.y/p'', Submit] (boot ''/extract'')))
   \<and> \<not> submit_disabled
         (instances (step (ExtractSettles 0 (Responded 200 None))
                       (run [Input Email ''a@b.c'', Input Password ''pw'',
                             Input PostUrl ''https://x.y/p'', Submit] (boot ''/extract'')))
            ! owner (in_flight (run [Input Email ''a@b.c'', Input Password ''pw'',
                                     Input PostUrl ''https://x.y/p'', Submit] (boot ''/extract'')) ! 0))
   \<and> isLoading (instances (run [Input Email ''a@b.c'', Input Password ''pw'',
                                Input PostUrl ''https://x.y/p'', Submit] (boot ''/extract'')) ! 0)"
proof -
  let ?es = "[Input Email ''a@b.c'', Input Password ''pw'', Input PostUrl ''https://x.y/p'', Submit]"
  have h1: "0 < length (instances (boot ''/extract''))"
    by (simp add: boot_def route_def)
  have h2: "0 < length (in_flight (run ?es (boot ''/extract'')))"
    by code_simp
  have h3: "0 < length (instances (run ?es (boot ''/extract'')))"
    by code_simp
  have h4: "0 \<in> owner ` set (in_flight (run ?es (boot ''/extract'')))"
    by code_simp
  show ?thesis
    using h1 h2 h3 h4
      loading_only_while_in_flight [of 0 "boot ''/extract''"
        "\<lparr>email = ''a@b.c'', password = ''pw'', postUrl = ''https://x.y/p''\<rparr>" Rejected
        ?es "''/extract''" "Responded 200 None"]
    by blast
qed

end
